theory Spec2Isabelle
  imports Main
begin

section \<open>The host editor and Python's control flow\<close>

text \<open>
  \<^verbatim>\<open>python3/vimspector/utils.py\<close> is glue between a debugger plugin and Vim's Python
  interface. Every function reads or writes the editor through the \<^verbatim>\<open>vim\<close> module, so
  the editor is an explicit state that each function takes and returns. A Python
  function that may raise returns \<open>Inl e\<close> for the exception \<open>e\<close> together with the
  state as it was when the exception left the function.
\<close>

datatype exn = KeyboardInterrupt | KeyError | Exception string

datatype optval = OBool bool | OInt int | OStr string

type_synonym buffer = nat
type_synonym window = nat

text \<open>
  The part of the editor the module touches: the global options (\<^verbatim>\<open>vim.options\<close>), each
  buffer's options and lines, the buffer each window shows and its cursor, the active
  window, and the commands and expressions handed to \<^verbatim>\<open>vim.command\<close> and \<^verbatim>\<open>vim.eval\<close>,
  in the order they were issued.
\<close>

record vim =
  vim_options :: "string \<Rightarrow> optval"
  buf_options :: "buffer \<Rightarrow> string \<Rightarrow> optval"
  buf_lines :: "buffer \<Rightarrow> string list"
  win_buffer :: "window \<Rightarrow> buffer"
  win_cursor :: "window \<Rightarrow> int \<times> int"
  current_window :: window
  commands :: "string list"
  evals :: "string list"

type_synonym 'a prog = "vim \<Rightarrow> (exn + 'a) \<times> vim"

definition py_return :: "'a \<Rightarrow> 'a prog" where
  "py_return v s = (Inr v, s)"

definition py_raise :: "exn \<Rightarrow> 'a prog" where
  "py_raise e s = (Inl e, s)"

text \<open>Sequencing: an exception of the first statement skips the rest.\<close>

definition py_bind :: "'a prog \<Rightarrow> ('a \<Rightarrow> 'b prog) \<Rightarrow> 'b prog" where
  "py_bind m f s = (case m s of (Inl e, s') \<Rightarrow> (Inl e, s') | (Inr v, s') \<Rightarrow> f v s')"

text \<open>
  \<^verbatim>\<open>try: body finally: fin\<close>. The \<^verbatim>\<open>finally\<close> block runs however the body ended; the
  body's outcome (its value or its exception) stands unless the block itself raises.
\<close>

definition try_finally :: "'a prog \<Rightarrow> unit prog \<Rightarrow> 'a prog" where
  "try_finally body fin s =
     (case body s of (r, s') \<Rightarrow>
        (case fin s' of (Inl e, s'') \<Rightarrow> (Inl e, s'') | (Inr _, s'') \<Rightarrow> (r, s'')))"

text \<open>
  \<^verbatim>\<open>try: body except: handler\<close> with a bare \<^verbatim>\<open>except\<close> and no re-raise: the handler runs
  only when the body raised, and the exception ends there. \<open>None\<close> says the body did not
  complete.
\<close>

definition try_except :: "'a prog \<Rightarrow> unit prog \<Rightarrow> 'a option prog" where
  "try_except body handler s =
     (case body s of
        (Inr v, s') \<Rightarrow> (Inr (Some v), s')
      | (Inl e, s') \<Rightarrow>
          (case handler s' of (Inl e', s'') \<Rightarrow> (Inl e', s'') | (Inr _, s'') \<Rightarrow> (Inr None, s'')))"

text \<open>\<^verbatim>\<open>try: body except KeyboardInterrupt: handler\<close>: every other exception passes.\<close>

definition except_KeyboardInterrupt :: "'a prog \<Rightarrow> 'a prog \<Rightarrow> 'a prog" where
  "except_KeyboardInterrupt body handler s =
     (case body s of
        (Inl KeyboardInterrupt, s') \<Rightarrow> handler s'
      | (r, s') \<Rightarrow> (r, s'))"

section \<open>Scoped option and buffer changes\<close>

text \<open>
  \<^verbatim>\<open>vim.options[ opt ]\<close> with a caller-supplied name. The editor's table of option names is
  fixed; \<open>option_exists\<close> is that table, and a name outside it raises \<^verbatim>\<open>KeyError\<close> on a
  read and on a write.
\<close>

definition get_vim_option :: "(string \<Rightarrow> bool) \<Rightarrow> string \<Rightarrow> optval prog" where
  "get_vim_option option_exists opt s =
     (if option_exists opt then (Inr (vim_options s opt), s) else (Inl KeyError, s))"

definition set_vim_option :: "(string \<Rightarrow> bool) \<Rightarrow> string \<Rightarrow> optval \<Rightarrow> unit prog" where
  "set_vim_option option_exists opt v s =
     (if option_exists opt then (Inr (), s\<lparr>vim_options := (vim_options s)(opt := v)\<rparr>)
      else (Inl KeyError, s))"

text \<open>
  \<^verbatim>\<open>
  @contextlib.contextmanager
  def TemporaryVimOption( opt, value ):
    old_value = vim.options[ opt ]
    vim.options[ opt ] = value
    try:
      yield
    finally:
      vim.options[ opt ] = old_value
  \<close>
  The body of the \<^verbatim>\<open>with\<close> statement runs at the \<^verbatim>\<open>yield\<close>; an exception of the body is
  raised there.
\<close>

definition TemporaryVimOption ::
    "(string \<Rightarrow> bool) \<Rightarrow> string \<Rightarrow> optval \<Rightarrow> 'a prog \<Rightarrow> 'a prog" where
  "TemporaryVimOption option_exists opt value body =
     py_bind (get_vim_option option_exists opt) (\<lambda>old_value.
     py_bind (set_vim_option option_exists opt value) (\<lambda>_.
     try_finally body (set_vim_option option_exists opt old_value)))"

text \<open>\<^verbatim>\<open>buf.options[ name ] = v\<close> for one of the buffer-local options every buffer has.\<close>

definition set_buf_option :: "buffer \<Rightarrow> string \<Rightarrow> optval \<Rightarrow> unit prog" where
  "set_buf_option buf name v s =
     (Inr (), s\<lparr>buf_options := (buf_options s)(buf := (buf_options s buf)(name := v))\<rparr>)"

text \<open>
  \<^verbatim>\<open>
  @contextlib.contextmanager
  def ModifiableScratchBuffer( buf ):
    buf.options[ 'modifiable' ] = True
    buf.options[ 'readonly' ] = False
    try:
      yield
    finally:
      buf.options[ 'modifiable' ] = False
      buf.options[ 'readonly' ] = True
  \<close>
\<close>

definition ModifiableScratchBuffer :: "buffer \<Rightarrow> 'a prog \<Rightarrow> 'a prog" where
  "ModifiableScratchBuffer buf body =
     py_bind (set_buf_option buf ''modifiable'' (OBool True)) (\<lambda>_.
     py_bind (set_buf_option buf ''readonly'' (OBool False)) (\<lambda>_.
     try_finally body
       (py_bind (set_buf_option buf ''modifiable'' (OBool False)) (\<lambda>_.
        set_buf_option buf ''readonly'' (OBool True)))))"

section \<open>Cursor, window and buffer restoration\<close>

text \<open>
  \<^verbatim>\<open>vim.current.buffer\<close> is the buffer the active window shows, and \<^verbatim>\<open>len\<close> of a buffer
  is its number of lines.
\<close>

definition current_buffer :: "vim \<Rightarrow> buffer" where
  "current_buffer s = win_buffer s (current_window s)"

definition set_cursor :: "int \<times> int \<Rightarrow> unit prog" where
  "set_cursor pos s =
     (Inr (), s\<lparr>win_cursor := (win_cursor s)(current_window s := pos)\<rparr>)"

definition set_current_window :: "window \<Rightarrow> unit prog" where
  "set_current_window w s = (Inr (), s\<lparr>current_window := w\<rparr>)"

definition set_current_buffer :: "buffer \<Rightarrow> unit prog" where
  "set_current_buffer b s =
     (Inr (), s\<lparr>win_buffer := (win_buffer s)(current_window s := b)\<rparr>)"

text \<open>
  \<^verbatim>\<open>
  @contextlib.contextmanager
  def RestoreCursorPosition():
    current_pos = vim.current.window.cursor
    try:
      yield
    finally:
      vim.current.window.cursor = (
        min( current_pos[ 0 ], len( vim.current.buffer ) ),
        current_pos[ 1 ] )
  \<close>
  The window and the buffer in the \<^verbatim>\<open>finally\<close> block are the ones current at that time.
\<close>

definition RestoreCursorPosition :: "'a prog \<Rightarrow> 'a prog" where
  "RestoreCursorPosition body s =
     (let current_pos = win_cursor s (current_window s) in
      try_finally body
        (\<lambda>t. set_cursor
           (min (fst current_pos) (int (length (buf_lines t (current_buffer t)))),
            snd current_pos) t) s)"

text \<open>
  \<^verbatim>\<open>
  @contextlib.contextmanager
  def RestorCurrentWindow():
    old_window = vim.current.window
    try:
      yield
    finally:
      vim.current.window = old_window
  \<close>
\<close>

definition RestorCurrentWindow :: "'a prog \<Rightarrow> 'a prog" where
  "RestorCurrentWindow body s =
     (let old_window = current_window s in
      try_finally body (set_current_window old_window) s)"

text \<open>
  \<^verbatim>\<open>
  @contextlib.contextmanager
  def RestoreCurrentBuffer( window ):
    old_buffer = window.buffer
    try:
      yield
    finally:
      with RestorCurrentWindow():
        vim.current.window = window
        vim.current.buffer = old_buffer
  \<close>
\<close>

definition RestoreCurrentBuffer :: "window \<Rightarrow> 'a prog \<Rightarrow> 'a prog" where
  "RestoreCurrentBuffer window body s =
     (let old_buffer = win_buffer s window in
      try_finally body
        (RestorCurrentWindow
           (py_bind (set_current_window window) (\<lambda>_. set_current_buffer old_buffer))) s)"

section \<open>Looking for a configuration file\<close>

text \<open>
  The functions of \<^verbatim>\<open>os\<close> and \<^verbatim>\<open>os.path\<close> that \<^verbatim>\<open>PathToConfigFile\<close> calls belong to the
  platform, so they are a parameter: the working directory, \<^verbatim>\<open>os.path.join\<close>,
  \<^verbatim>\<open>os.path.exists\<close> and \<^verbatim>\<open>os.path.dirname\<close>.
\<close>

record os =
  getcwd :: string
  path_join :: "string \<Rightarrow> string \<Rightarrow> string"
  path_exists :: "string \<Rightarrow> bool"
  path_dirname :: "string \<Rightarrow> string"

text \<open>
  \<^verbatim>\<open>
  def PathToConfigFile( file_name ):
    p = os.getcwd()
    while True:
      candidate = os.path.join( p, file_name )
      if os.path.exists( candidate ):
        return candidate

      parent = os.path.dirname( p )
      if parent == p:
        return None
      p = parent
  \<close>
  The loop has no bound of its own, so it is a partial function: the outer \<open>None\<close> is a
  loop that never returns, \<open>Some None\<close> is Python's \<^verbatim>\<open>None\<close>, \<open>Some (Some c)\<close> the
  path \<open>c\<close>.
\<close>

partial_function (option) PathToConfigFile_loop ::
    "os \<Rightarrow> string \<Rightarrow> string \<Rightarrow> string option option" where
  "PathToConfigFile_loop os file_name p =
     (let candidate = path_join os p file_name in
      if path_exists os candidate then Some (Some candidate)
      else (let parent = path_dirname os p in
            if parent = p then Some None
            else PathToConfigFile_loop os file_name parent))"

definition PathToConfigFile :: "os \<Rightarrow> string \<Rightarrow> string option option" where
  "PathToConfigFile os file_name = PathToConfigFile_loop os file_name (getcwd os)"

text \<open>The directory \<open>n\<close> levels above the working directory.\<close>

definition ancestor :: "os \<Rightarrow> nat \<Rightarrow> string" where
  "ancestor os n = (path_dirname os ^^ n) (getcwd os)"

declare PathToConfigFile_loop.simps [code]

text \<open>
  \<open>walk_result os f p n r\<close>: the loop started at \<open>p\<close> stops \<open>n\<close> directories higher
  with the result \<open>r\<close>, a path that exists there or \<^verbatim>\<open>None\<close> at a directory that is
  its own parent.
\<close>

definition walk_result :: "os \<Rightarrow> string \<Rightarrow> string \<Rightarrow> nat \<Rightarrow> string option \<Rightarrow> bool" where
  "walk_result os f p n r =
     (case r of
        Some c \<Rightarrow> c = path_join os ((path_dirname os ^^ n) p) f \<and> path_exists os c
      | None \<Rightarrow> \<not> path_exists os (path_join os ((path_dirname os ^^ n) p) f)
            \<and> path_dirname os ((path_dirname os ^^ n) p) = (path_dirname os ^^ n) p)"

text \<open>
  A POSIX platform to run the function on, after CPython's \<^verbatim>\<open>posixpath\<close>:
  \<^verbatim>\<open>dirname\<close> cuts after the last slash and strips the trailing slashes of what is left
  unless it is slashes only; \<^verbatim>\<open>join\<close> restarts at an absolute second part and puts one
  slash between the parts otherwise.
\<close>

definition posix_dirname :: "string \<Rightarrow> string" where
  "posix_dirname p =
     (let head = rev (dropWhile (\<lambda>c. c \<noteq> CHR ''/'') (rev p)) in
      if head \<noteq> [] \<and> filter (\<lambda>c. c \<noteq> CHR ''/'') head \<noteq> []
      then rev (dropWhile (\<lambda>c. c = CHR ''/'') (rev head))
      else head)"

definition posix_join :: "string \<Rightarrow> string \<Rightarrow> string" where
  "posix_join a b =
     (if take 1 b = ''/'' then b
      else if a = [] \<or> last a = CHR ''/'' then a @ b
      else a @ ''/'' @ b)"

definition posix :: "string \<Rightarrow> string list \<Rightarrow> os" where
  "posix cwd files =
     \<lparr>getcwd = cwd, path_join = posix_join, path_exists = (\<lambda>p. p \<in> set files),
      path_dirname = posix_dirname\<rparr>"

section \<open>Messages and prompts\<close>

text \<open>The single quote and the line feed.\<close>

definition quote :: char where
  "quote = CHR 0x27"

definition newline :: char where
  "newline = CHR 0x0A"

text \<open>
  \<^verbatim>\<open>
  def Escape( msg ):
    return msg.replace( "'", "''" )
  \<close>
  The pattern is one character long, so \<^verbatim>\<open>replace\<close> works character by character.
\<close>

definition Escape :: "string \<Rightarrow> string" where
  "Escape msg = concat (map (\<lambda>c. if c = quote then [quote, quote] else [c]) msg)"

text \<open>
  \<^verbatim>\<open>msg.split( sep )\<close> for a one-character separator: the pieces between the separators,
  empty pieces included, and one empty piece for the empty string.
\<close>

fun str_split :: "char \<Rightarrow> string \<Rightarrow> string list" where
  "str_split sep [] = [[]]"
| "str_split sep (c # cs) =
     (if c = sep then [] # str_split sep cs
      else (let r = str_split sep cs in (c # hd r) # tl r))"

definition vim_command :: "string \<Rightarrow> unit prog" where
  "vim_command cmd s = (Inr (), s\<lparr>commands := commands s @ [cmd]\<rparr>)"

text \<open>A \<^verbatim>\<open>for\<close> loop over a list.\<close>

fun for_each :: "('a \<Rightarrow> unit prog) \<Rightarrow> 'a list \<Rightarrow> unit prog" where
  "for_each f [] = py_return ()"
| "for_each f (x # xs) = py_bind (f x) (\<lambda>_. for_each f xs)"

text \<open>
  \<^verbatim>\<open>
  def UserMessage( msg, persist=False ):
    vim.command( 'redraw' )
    cmd = 'echom' if persist else 'echo'
    for line in msg.split( '\n' ):
      vim.command( "{0} '{1}'".format( cmd, Escape( line ) ) )
  \<close>
\<close>

definition UserMessage :: "string \<Rightarrow> bool \<Rightarrow> unit prog" where
  "UserMessage msg persist =
     py_bind (vim_command ''redraw'') (\<lambda>_.
     let cmd = (if persist then ''echom'' else ''echo'') in
     for_each (\<lambda>line. vim_command (cmd @ '' '' @ [quote] @ Escape line @ [quote]))
       (str_split newline msg))"

text \<open>
  How Vim reads a literal string once the opening quote is consumed: two quotes stand for
  one quote of the text, a single quote ends the literal, and the end of the command
  before that is an error. The result is the text and what follows the literal.
\<close>

fun read_literal :: "string \<Rightarrow> (string \<times> string) option" where
  "read_literal [] = None"
| "read_literal (c # cs) =
     (if c \<noteq> quote then map_option (\<lambda>(txt, rest). (c # txt, rest)) (read_literal cs)
      else (case cs of
              [] \<Rightarrow> Some ([], [])
            | d # ds \<Rightarrow>
                if d = quote then map_option (\<lambda>(txt, rest). (quote # txt, rest)) (read_literal ds)
                else Some ([], cs)))"

text \<open>
  \<^verbatim>\<open>vim.eval( expr )\<close>. What the editor answers depends on the user, so the answer is a
  parameter: a value, or the exception the call raises (\<^verbatim>\<open>KeyboardInterrupt\<close> when the user
  interrupts a prompt). The expression is recorded either way.
\<close>

definition vim_eval :: "exn + 'r \<Rightarrow> string \<Rightarrow> 'r prog" where
  "vim_eval answer expr s = (answer, s\<lparr>evals := evals s @ [expr]\<rparr>)"

text \<open>
  \<^verbatim>\<open>
  @contextlib.contextmanager
  def InputSave():
    vim.eval( 'inputsave()' )
    try:
      yield
    except:
      vim.eval( 'inputrestore()' )
  \<close>
  When the generator handles the exception thrown at its \<^verbatim>\<open>yield\<close> and runs to its end,
  \<^verbatim>\<open>contextlib\<close> reports the exception as handled and the \<^verbatim>\<open>with\<close> statement completes
  normally: that is the result \<open>None\<close>.
\<close>

definition InputSave :: "'a prog \<Rightarrow> 'a option prog" where
  "InputSave body =
     py_bind (vim_eval (Inr ''0'') ''inputsave()'') (\<lambda>_.
     try_except body
       (py_bind (vim_eval (Inr ''0'') ''inputrestore()'') (\<lambda>_. py_return ())))"

text \<open>Decimal digits of a natural number, as \<^verbatim>\<open>format\<close> prints an index.\<close>

function str_of_nat :: "nat \<Rightarrow> string" where
  "str_of_nat n =
     (if n < 10 then [''0123456789'' ! n]
      else str_of_nat (n div 10) @ [''0123456789'' ! (n mod 10)])"
  by pat_completeness auto
termination
  by (relation "measure id") auto

text \<open>
  \<^verbatim>\<open>
  def SelectFromList( prompt, options ):
    with InputSave():
      display_options = [ prompt ]
      display_options.extend( [ '{0}: {1}'.format( i + 1, v )
                                for i, v in enumerate( options ) ] )
      try:
        selection = int( vim.eval(
          'inputlist( ' + json.dumps( display_options ) + ' )' ) ) - 1
        if selection < 0 or selection >= len( options ):
          return None
        return options[ selection ]
      except KeyboardInterrupt:
        return None
  \<close>
  \<open>answer\<close> is the number \<^verbatim>\<open>int( vim.eval( ... ) )\<close> yields, or the exception raised while
  the list is shown; \<^verbatim>\<open>json.dumps\<close> is a parameter. A \<^verbatim>\<open>with\<close> statement that completes
  without a \<^verbatim>\<open>return\<close> is followed by the end of the function, which returns \<^verbatim>\<open>None\<close>.
\<close>

definition SelectFromList ::
    "(string list \<Rightarrow> string) \<Rightarrow> exn + int \<Rightarrow> string \<Rightarrow> string list \<Rightarrow> string option prog" where
  "SelectFromList json_dumps answer prompt options =
     py_bind
       (InputSave
          (let display_options =
                 [prompt] @ map (\<lambda>(i, v). str_of_nat (i + 1) @ '': '' @ v) (enumerate 0 options)
           in except_KeyboardInterrupt
                (py_bind (vim_eval answer (''inputlist( '' @ json_dumps display_options @ '' )''))
                   (\<lambda>n. let selection = n - 1 in
                         if selection < 0 \<or> selection \<ge> int (length options)
                         then py_return None
                         else py_return (Some (options ! nat selection))))
                (py_return None)))
       (\<lambda>r. py_return (case r of Some v \<Rightarrow> v | None \<Rightarrow> None))"

text \<open>
  \<^verbatim>\<open>
  def AskForInput( prompt ):
    with InputSave():
      return vim.eval( "input( '{0}' )".format( Escape( prompt ) ) )
  \<close>
\<close>

definition AskForInput :: "exn + string \<Rightarrow> string \<Rightarrow> string option prog" where
  "AskForInput answer prompt =
     py_bind
       (InputSave (vim_eval answer (''input( '' @ [quote] @ Escape prompt @ [quote] @ '' )'')))
       (\<lambda>r. py_return r)"

section \<open>Logging\<close>

text \<open>
  A logger has a level and a list of handlers; a handler is known by its identity, and
  \<^verbatim>\<open>_log_handler\<close> is the one handler the module creates when it is loaded.
  \<^verbatim>\<open>
  def SetUpLogging( logger ):
    logger.setLevel( logging.DEBUG )
    if _log_handler not in logger.handlers:
        logger.addHandler( _log_handler )
  \<close>
  \<^verbatim>\<open>addHandler\<close> is taken to append without a test of its own, so that what is proved
  rests on the test in \<^verbatim>\<open>SetUpLogging\<close>.
\<close>

type_synonym handler = nat

record logger =
  level :: nat
  handlers :: "handler list"

definition DEBUG :: nat where
  "DEBUG = 10"

definition setLevel :: "nat \<Rightarrow> logger \<Rightarrow> logger" where
  "setLevel l logger = logger\<lparr>level := l\<rparr>"

definition addHandler :: "handler \<Rightarrow> logger \<Rightarrow> logger" where
  "addHandler h logger = logger\<lparr>handlers := handlers logger @ [h]\<rparr>"

definition SetUpLogging :: "handler \<Rightarrow> logger \<Rightarrow> logger" where
  "SetUpLogging log_handler logger =
     (let logger = setLevel DEBUG logger in
      if log_handler \<notin> set (handlers logger) then addHandler log_handler logger
      else logger)"

section \<open>Concrete inputs\<close>

text \<open>
  \<^verbatim>\<open>json.dumps\<close> of a list of strings none of which holds a character that JSON escapes:
  the strings in double quotes, separated by a comma and a space, in brackets.
\<close>

fun join_with :: "string \<Rightarrow> string list \<Rightarrow> string" where
  "join_with sep [] = []"
| "join_with sep [x] = x"
| "join_with sep (x # y # ys) = x @ sep @ join_with sep (y # ys)"

definition json_dumps_ascii :: "string list \<Rightarrow> string" where
  "json_dumps_ascii xs = ''['' @ join_with '', '' (map (\<lambda>x. [CHR 0x22] @ x @ [CHR 0x22]) xs) @ '']''"

text \<open>An editor with nothing in it, for running the functions on concrete inputs.\<close>

definition blank :: vim where
  "blank = \<lparr>vim_options = (\<lambda>_. OInt 0), buf_options = (\<lambda>_ _. OBool False),
            buf_lines = (\<lambda>_. [[]]), win_buffer = (\<lambda>_. 0), win_cursor = (\<lambda>_. (1, 0)),
            current_window = 0, commands = [], evals = []\<rparr>"

section \<open>Properties of the scoped helpers\<close>

lemma TemporaryVimOption_unknown:
  "\<not> option_exists opt \<Longrightarrow> TemporaryVimOption option_exists opt value body s = (Inl KeyError, s)"
  by (simp add: TemporaryVimOption_def py_bind_def get_vim_option_def)

text \<open>
  C1. For an option the editor knows, \<open>TemporaryVimOption\<close> runs the body in the state
  where the option has the new value, gives the option its pre-call value back after the
  body, whether the body returned or raised, and hands on the body's outcome \<open>r\<close>
  unchanged: a raised exception \<open>Inl e\<close> leaves the scope as \<open>Inl e\<close>. (For a name the
  editor does not know there is no pre-call value: the first read raises and the body
  never runs, \<open>TemporaryVimOption_unknown\<close>.)
\<close>

theorem TemporaryVimOption_restores:
  assumes "option_exists opt"
    and "body (s\<lparr>vim_options := (vim_options s)(opt := value)\<rparr>) = (r, s2)"
  shows "TemporaryVimOption option_exists opt value body s
           = (r, s2\<lparr>vim_options := (vim_options s2)(opt := vim_options s opt)\<rparr>)
         \<and> vim_options (snd (TemporaryVimOption option_exists opt value body s)) opt
           = vim_options s opt
         \<and> fst (TemporaryVimOption option_exists opt value body s) = r"
  using assms
  by (simp add: TemporaryVimOption_def py_bind_def get_vim_option_def set_vim_option_def
      try_finally_def)

theorem TemporaryVimOption_restores_witness:
  "fst (TemporaryVimOption (\<lambda>n. n = ''hidden'') ''hidden'' (OBool True)
          (py_bind (set_vim_option (\<lambda>n. n = ''hidden'') ''hidden'' (OInt 7))
             (\<lambda>_. py_raise (Exception ''boom'') :: unit prog)) blank)
     = Inl (Exception ''boom'')
   \<and> vim_options (snd (TemporaryVimOption (\<lambda>n. n = ''hidden'') ''hidden'' (OBool True)
          (py_bind (set_vim_option (\<lambda>n. n = ''hidden'') ''hidden'' (OInt 7))
             (\<lambda>_. py_raise (Exception ''boom'') :: unit prog)) blank)) ''hidden''
     = OInt 0"
  using TemporaryVimOption_restores [of "\<lambda>n. n = ''hidden''" "''hidden''"
      "py_bind (set_vim_option (\<lambda>n. n = ''hidden'') ''hidden'' (OInt 7))
         (\<lambda>_. py_raise (Exception ''boom'') :: unit prog)"
      blank "OBool True" "Inl (Exception ''boom'')"
      "blank\<lparr>vim_options := (vim_options blank)(''hidden'' := OInt 7)\<rparr>"]
  by (simp add: py_bind_def set_vim_option_def py_raise_def blank_def)

text \<open>
  C2. \<open>ModifiableScratchBuffer\<close> runs the body in the state where the buffer has
  \<^verbatim>\<open>modifiable\<close> true and \<^verbatim>\<open>readonly\<close> false, and whatever the body's outcome \<open>r\<close> is, a
  value or an exception, the buffer has \<^verbatim>\<open>modifiable\<close> false and \<^verbatim>\<open>readonly\<close> true when
  the scope ends; the outcome is handed on.
\<close>

theorem ModifiableScratchBuffer_locks:
  assumes "body (s\<lparr>buf_options := (buf_options s)
                  (buf := (buf_options s buf)
                     (''modifiable'' := OBool True, ''readonly'' := OBool False))\<rparr>) = (r, s2)"
  shows "ModifiableScratchBuffer buf body s
           = (r, s2\<lparr>buf_options := (buf_options s2)
                  (buf := (buf_options s2 buf)
                     (''modifiable'' := OBool False, ''readonly'' := OBool True))\<rparr>)
         \<and> buf_options (snd (ModifiableScratchBuffer buf body s)) buf ''modifiable'' = OBool False
         \<and> buf_options (snd (ModifiableScratchBuffer buf body s)) buf ''readonly'' = OBool True
         \<and> fst (ModifiableScratchBuffer buf body s) = r"
  using assms
  by (simp add: ModifiableScratchBuffer_def py_bind_def set_buf_option_def try_finally_def)

theorem ModifiableScratchBuffer_locks_witness:
  "buf_options (snd (ModifiableScratchBuffer 3 (py_raise (Exception ''boom'') :: unit prog) blank))
       3 ''modifiable'' = OBool False
   \<and> buf_options (snd (ModifiableScratchBuffer 3 (py_raise (Exception ''boom'') :: unit prog) blank))
       3 ''readonly'' = OBool True
   \<and> fst (ModifiableScratchBuffer 3 (py_raise (Exception ''boom'') :: unit prog) blank)
       = Inl (Exception ''boom'')"
  using ModifiableScratchBuffer_locks [of "py_raise (Exception ''boom'') :: unit prog" blank 3
      "Inl (Exception ''boom'')"
      "blank\<lparr>buf_options := (buf_options blank)
          (3 := (buf_options blank 3)
             (''modifiable'' := OBool True, ''readonly'' := OBool False))\<rparr>"]
  by (simp add: py_raise_def)

text \<open>
  C5. With \<open>(C, col)\<close> the cursor of the active window when the scope is entered and
  \<open>s2\<close> the editor as the body left it, \<open>RestoreCursorPosition\<close> sets the cursor of the
  window active in \<open>s2\<close> to line \<open>min C L'\<close> and column \<open>col\<close>, where \<open>L'\<close> is the
  number of lines of the buffer current in \<open>s2\<close>; it does so whether the body returned
  or raised, and hands on the body's outcome.
\<close>

theorem RestoreCursorPosition_clamps:
  assumes "body s = (r, s2)"
  shows "RestoreCursorPosition body s
           = (r, s2\<lparr>win_cursor := (win_cursor s2)
                  (current_window s2 :=
                     (min (fst (win_cursor s (current_window s)))
                          (int (length (buf_lines s2 (current_buffer s2)))),
                      snd (win_cursor s (current_window s))))\<rparr>)
         \<and> win_cursor (snd (RestoreCursorPosition body s))
              (current_window (snd (RestoreCursorPosition body s)))
           = (min (fst (win_cursor s (current_window s)))
                  (int (length (buf_lines s2 (current_buffer s2)))),
              snd (win_cursor s (current_window s)))
         \<and> fst (RestoreCursorPosition body s) = r"
  using assms
  by (simp add: RestoreCursorPosition_def try_finally_def set_cursor_def Let_def)

theorem RestoreCursorPosition_clamps_witness:
  "win_cursor (snd (RestoreCursorPosition
       (\<lambda>t. (Inl (Exception ''boom'') :: exn + unit,
             t\<lparr>buf_lines := (buf_lines t)(0 := take 3 (buf_lines t 0))\<rparr>))
       (blank\<lparr>buf_lines := (\<lambda>_. [''a'', ''b'', ''c'', ''d'', ''e'']), win_cursor := (\<lambda>_. (5, 2))\<rparr>))) 0
     = (3, 2)"
  using RestoreCursorPosition_clamps [of
      "\<lambda>t. (Inl (Exception ''boom'') :: exn + unit,
            t\<lparr>buf_lines := (buf_lines t)(0 := take 3 (buf_lines t 0))\<rparr>)"
      "blank\<lparr>buf_lines := (\<lambda>_. [''a'', ''b'', ''c'', ''d'', ''e'']), win_cursor := (\<lambda>_. (5, 2))\<rparr>"
      "Inl (Exception ''boom'')"
      "blank\<lparr>buf_lines := (\<lambda>_. [''a'', ''b'', ''c'', ''d'', ''e''])(0 := [''a'', ''b'', ''c'']),
             win_cursor := (\<lambda>_. (5, 2))\<rparr>"]
  by (simp add: blank_def current_buffer_def)

text \<open>
  The restoration step of \<open>RestoreCurrentBuffer\<close> on its own: the target window becomes
  the active one and takes the recorded buffer.
\<close>

lemma restoration_step_activates_window:
  "py_bind (set_current_window window) (\<lambda>_. set_current_buffer b) s
     = (Inr (), s\<lparr>current_window := window, win_buffer := (win_buffer s)(window := b)\<rparr>)"
  by (simp add: py_bind_def set_current_window_def set_current_buffer_def)

text \<open>
  C9. \<open>RestoreCurrentBuffer\<close> changes nothing of what the body left but the buffer of
  the target window: after the scope the target window shows the buffer it showed when
  the scope was entered, and the active window is the one that was active when the body
  finished, whether the body returned or raised.
\<close>

theorem RestoreCurrentBuffer_keeps_window:
  assumes "body s = (r, s2)"
  shows "RestoreCurrentBuffer window body s
           = (r, s2\<lparr>win_buffer := (win_buffer s2)(window := win_buffer s window)\<rparr>)
         \<and> current_window (snd (RestoreCurrentBuffer window body s)) = current_window s2
         \<and> win_buffer (snd (RestoreCurrentBuffer window body s)) window = win_buffer s window
         \<and> fst (RestoreCurrentBuffer window body s) = r"
  using assms
  by (simp add: RestoreCurrentBuffer_def RestorCurrentWindow_def try_finally_def py_bind_def
      set_current_window_def set_current_buffer_def Let_def)

theorem RestoreCurrentBuffer_keeps_window_witness:
  "win_buffer (snd (RestoreCurrentBuffer 1
       (\<lambda>t. (Inl (Exception ''boom'') :: exn + unit,
             t\<lparr>win_buffer := (win_buffer t)(1 := 9), current_window := 2\<rparr>))
       blank)) 1 = 0
   \<and> current_window (snd (RestoreCurrentBuffer 1
       (\<lambda>t. (Inl (Exception ''boom'') :: exn + unit,
             t\<lparr>win_buffer := (win_buffer t)(1 := 9), current_window := 2\<rparr>))
       blank)) = 2"
  using RestoreCurrentBuffer_keeps_window [of
      "\<lambda>t. (Inl (Exception ''boom'') :: exn + unit,
            t\<lparr>win_buffer := (win_buffer t)(1 := 9), current_window := 2\<rparr>)"
      blank "Inl (Exception ''boom'')"
      "blank\<lparr>win_buffer := (win_buffer blank)(1 := 9), current_window := 2\<rparr>" 1]
  by (simp add: blank_def)

section \<open>Properties of the prompts\<close>

text \<open>
  What \<open>InputSave\<close> does on its two exits. When the body completes, the editor is left
  as the body left it: nothing is evaluated after the body. When the body raises,
  \<^verbatim>\<open>inputrestore()\<close> is evaluated and the exception ends in the scope.
\<close>

lemma InputSave_body_returns:
  "body (s\<lparr>evals := evals s @ [''inputsave()'']\<rparr>) = (Inr v, s2) \<Longrightarrow>
   InputSave body s = (Inr (Some v), s2)"
  by (simp add: InputSave_def py_bind_def vim_eval_def try_except_def)

lemma InputSave_body_raises:
  "body (s\<lparr>evals := evals s @ [''inputsave()'']\<rparr>) = (Inl e, s2) \<Longrightarrow>
   InputSave body s = (Inr None, s2\<lparr>evals := evals s2 @ [''inputrestore()'']\<rparr>)"
  by (simp add: InputSave_def py_bind_def vim_eval_def try_except_def py_return_def)

text \<open>
  C3. \<open>InputSave\<close> evaluates \<^verbatim>\<open>inputrestore()\<close> only when the body raises. When the user
  picks entry 2 of three, when the user interrupts the list (which \<open>SelectFromList\<close>
  handles inside the scope, so the body completes), and when the user answers a
  free-text prompt, the expressions evaluated are \<^verbatim>\<open>inputsave()\<close> and the prompt and
  nothing after them: the input state saved on entry is not restored on these exits.
\<close>

theorem prompts_leave_input_saved:
  "SelectFromList json_dumps (Inr 2) ''Pick'' [''A'', ''B'', ''C''] blank
     = (Inr (Some ''B''),
        blank\<lparr>evals := [''inputsave()'',
          ''inputlist( '' @ json_dumps [''Pick'', ''1: A'', ''2: B'', ''3: C''] @ '' )'']\<rparr>)
   \<and> SelectFromList json_dumps (Inl KeyboardInterrupt) ''Pick'' [''A'', ''B'', ''C''] blank
     = (Inr None,
        blank\<lparr>evals := [''inputsave()'',
          ''inputlist( '' @ json_dumps [''Pick'', ''1: A'', ''2: B'', ''3: C''] @ '' )'']\<rparr>)
   \<and> AskForInput (Inr ''yes'') ''Sure?'' blank
     = (Inr (Some ''yes''),
        blank\<lparr>evals := [''inputsave()'', ''input( '' @ [quote] @ ''Sure?'' @ [quote] @ '' )'']\<rparr>)"
  by (simp add: SelectFromList_def AskForInput_def InputSave_def py_bind_def vim_eval_def
      try_except_def except_KeyboardInterrupt_def py_return_def Let_def blank_def Escape_def
      quote_def enumerate_eq_zip)

text \<open>
  C4. \<open>SelectFromList\<close> returns \<open>options[i - 1]\<close> when the user enters \<open>i\<close> with
  \<open>1 \<le> i \<le> len(options)\<close>, and \<^verbatim>\<open>None\<close> as a value, not an exception, when the user
  enters any other number (0 and every number above the length among them) or interrupts
  the prompt.
\<close>

theorem SelectFromList_returns:
  "fst (SelectFromList json_dumps (Inr i) prompt options s)
     = Inr (if 1 \<le> i \<and> i \<le> int (length options) then Some (options ! nat (i - 1)) else None)
   \<and> fst (SelectFromList json_dumps (Inl KeyboardInterrupt) prompt options s) = Inr None"
  by (simp add: SelectFromList_def InputSave_def py_bind_def vim_eval_def try_except_def
      except_KeyboardInterrupt_def py_return_def Let_def)

theorem SelectFromList_returns_witness:
  "fst (SelectFromList json_dumps_ascii (Inr 2) ''Pick'' [''A'', ''B'', ''C''] blank) = Inr (Some ''B'')
   \<and> fst (SelectFromList json_dumps_ascii (Inr 0) ''Pick'' [''A'', ''B'', ''C''] blank) = Inr None
   \<and> fst (SelectFromList json_dumps_ascii (Inr 4) ''Pick'' [''A'', ''B'', ''C''] blank) = Inr None
   \<and> fst (SelectFromList json_dumps_ascii (Inl KeyboardInterrupt) ''Pick'' [''A'', ''B'', ''C''] blank) = Inr None"
  using SelectFromList_returns [of json_dumps_ascii 2 "''Pick''" "[''A'', ''B'', ''C'']" blank]
    SelectFromList_returns [of json_dumps_ascii 0 "''Pick''" "[''A'', ''B'', ''C'']" blank]
    SelectFromList_returns [of json_dumps_ascii 4 "''Pick''" "[''A'', ''B'', ''C'']" blank]
  by simp

section \<open>Properties of the messages\<close>

lemma for_each_vim_command:
  "for_each (\<lambda>x. vim_command (g x)) xs s = (Inr (), s\<lparr>commands := commands s @ map g xs\<rparr>)"
  by (induction xs arbitrary: s) (simp_all add: py_return_def py_bind_def vim_command_def)

lemma read_literal_Escape:
  "take 1 rest \<noteq> [quote] \<Longrightarrow> read_literal (Escape line @ quote # rest) = Some (line, rest)"
proof (induction line)
  case Nil
  then show ?case by (cases rest) (simp_all add: Escape_def)
next
  case (Cons c line)
  then have "read_literal (Escape line @ quote # rest) = Some (line, rest)" by simp
  moreover have "Escape (c # line) = (if c = quote then [quote, quote] else [c]) @ Escape line"
    by (simp add: Escape_def)
  ultimately show ?case by simp
qed

lemma length_str_split: "length (str_split sep msg) = Suc (length (filter (\<lambda>c. c = sep) msg))"
  by (induction msg) (simp_all add: Let_def)

lemma str_split_nonempty: "str_split sep msg \<noteq> []"
  by (induction msg) (simp_all add: Let_def)

text \<open>
  C7. \<open>UserMessage\<close> issues \<^verbatim>\<open>redraw\<close> first and then one command for each line of the
  message split at the line feeds, in order and nothing else: \<^verbatim>\<open>echom\<close> when \<open>persist\<close>
  holds and \<^verbatim>\<open>echo\<close> otherwise, a space, and the line between single quotes with each of
  its single quotes doubled by \<open>Escape\<close>. The literal is well-formed: read back from
  after the opening quote, it is the line itself and it ends at the closing quote.
\<close>

theorem UserMessage_commands:
  "UserMessage msg persist s
     = (Inr (), s\<lparr>commands := commands s @ ''redraw'' #
          map (\<lambda>line. (if persist then ''echom'' else ''echo'') @ '' '' @ [quote] @ Escape line @ [quote])
            (str_split newline msg)\<rparr>)
   \<and> read_literal (Escape line @ [quote]) = Some (line, [])"
  by (simp add: UserMessage_def py_bind_def vim_command_def for_each_vim_command Let_def
      read_literal_Escape)

theorem UserMessage_commands_witness:
  "commands (snd (UserMessage (''it's'' @ [newline] @ ''ok'') True blank))
     = [''redraw'', ''echom '' @ [quote] @ ''it'' @ [quote, quote] @ ''s'' @ [quote],
        ''echom '' @ [quote] @ ''ok'' @ [quote]]
   \<and> commands (snd (UserMessage [] False blank)) = [''redraw'', ''echo '' @ [quote, quote]]
   \<and> Escape ''it's'' = ''it'' @ [quote, quote] @ ''s''"
  using UserMessage_commands [of "''it's'' @ [newline] @ ''ok''" True blank]
    UserMessage_commands [of "[]" False blank]
  by (simp add: blank_def Escape_def quote_def newline_def)

section \<open>Properties of the upward search\<close>

lemma loop_hit:
  "path_exists os (path_join os p f) \<Longrightarrow>
   PathToConfigFile_loop os f p = Some (Some (path_join os p f))"
  by (subst PathToConfigFile_loop.simps) simp

lemma loop_root:
  "\<not> path_exists os (path_join os p f) \<Longrightarrow> path_dirname os p = p \<Longrightarrow>
   PathToConfigFile_loop os f p = Some None"
  by (subst PathToConfigFile_loop.simps) simp

lemma loop_up:
  "\<not> path_exists os (path_join os p f) \<Longrightarrow> path_dirname os p \<noteq> p \<Longrightarrow>
   PathToConfigFile_loop os f p = PathToConfigFile_loop os f (path_dirname os p)"
  by (subst PathToConfigFile_loop.simps) simp

lemma ancestor_0: "ancestor os 0 = getcwd os"
  by (simp add: ancestor_def)

lemma ancestor_Suc: "ancestor os (Suc n) = path_dirname os (ancestor os n)"
  by (simp add: ancestor_def)

lemma ancestor_fixed:
  "path_dirname os (ancestor os m) = ancestor os m \<Longrightarrow> ancestor os (m + k) = ancestor os m"
  by (induction k) (simp_all add: ancestor_Suc)

lemma loop_climb:
  "(\<And>m. m < n \<Longrightarrow> \<not> path_exists os (path_join os (ancestor os m) f)) \<Longrightarrow>
   (\<And>m. m < n \<Longrightarrow> path_dirname os (ancestor os m) \<noteq> ancestor os m) \<Longrightarrow>
   PathToConfigFile os f = PathToConfigFile_loop os f (ancestor os n)"
proof (induction n)
  case 0
  show ?case by (simp add: PathToConfigFile_def ancestor_0)
next
  case (Suc n)
  have "PathToConfigFile os f = PathToConfigFile_loop os f (ancestor os n)"
    using Suc by simp
  also have "\<dots> = PathToConfigFile_loop os f (ancestor os (Suc n))"
    using Suc.prems(1) [of n] Suc.prems(2) [of n] by (simp add: loop_up ancestor_Suc)
  finally show ?case .
qed


lemma found_nearest:
  assumes hit: "path_exists os (path_join os (ancestor os n) f)"
    and miss: "\<And>m. m < n \<Longrightarrow> \<not> path_exists os (path_join os (ancestor os m) f)"
  shows "PathToConfigFile os f = Some (Some (path_join os (ancestor os n) f))"
proof -
  have climb: "path_dirname os (ancestor os m) \<noteq> ancestor os m" if "m < n" for m
  proof
    assume "path_dirname os (ancestor os m) = ancestor os m"
    then have "ancestor os (m + (n - m)) = ancestor os m"
      by (rule ancestor_fixed)
    with that have "ancestor os n = ancestor os m" by simp
    with hit miss [OF that] show False by simp
  qed
  have "PathToConfigFile os f = PathToConfigFile_loop os f (ancestor os n)"
    using miss climb by (rule loop_climb)
  with hit show ?thesis by (simp add: loop_hit)
qed

lemma not_found_at_root:
  assumes root: "path_dirname os (ancestor os n) = ancestor os n"
    and miss: "\<And>m. m \<le> n \<Longrightarrow> \<not> path_exists os (path_join os (ancestor os m) f)"
  shows "PathToConfigFile os f = Some None"
proof -
  define k where "k = (LEAST j. path_dirname os (ancestor os j) = ancestor os j)"
  have k_root: "path_dirname os (ancestor os k) = ancestor os k"
    unfolding k_def using root by (rule LeastI)
  have k_le: "k \<le> n"
    unfolding k_def using root by (rule Least_le)
  have below: "path_dirname os (ancestor os m) \<noteq> ancestor os m" if "m < k" for m
    using that not_less_Least unfolding k_def by blast
  have "PathToConfigFile os f = PathToConfigFile_loop os f (ancestor os k)"
    using miss below k_le by (intro loop_climb) auto
  with k_root miss [OF k_le] show ?thesis by (simp add: loop_root)
qed

lemma returns_at_root:
  assumes root: "path_dirname os (ancestor os n) = ancestor os n"
  shows "\<exists>r. PathToConfigFile os f = Some r"
proof (cases "\<exists>m. path_exists os (path_join os (ancestor os m) f)")
  case True
  define j where "j = (LEAST m. path_exists os (path_join os (ancestor os m) f))"
  have "path_exists os (path_join os (ancestor os j) f)"
    unfolding j_def using True by (rule LeastI_ex)
  moreover have "\<not> path_exists os (path_join os (ancestor os m) f)" if "m < j" for m
    using that not_less_Least unfolding j_def by blast
  ultimately have "PathToConfigFile os f = Some (Some (path_join os (ancestor os j) f))"
    by (rule found_nearest)
  then show ?thesis by blast
next
  case False
  then have "PathToConfigFile os f = Some None"
    using root by (intro not_found_at_root [of os n]) auto
  then show ?thesis by blast
qed

lemma funpow_shift: "(g ^^ Suc j) x = (g ^^ j) (g x)"
  by (simp only: funpow_Suc_right o_apply)

lemma walk_result_shift:
  "walk_result os f (path_dirname os p) n r \<Longrightarrow> walk_result os f p (Suc n) r"
  unfolding walk_result_def funpow_shift .



lemma loop_sound:
  assumes "PathToConfigFile_loop os f p = Some r"
  shows "\<exists>n. (\<forall>m<n. \<not> path_exists os (path_join os ((path_dirname os ^^ m) p) f))
      \<and> walk_result os f p n r"
  using assms
proof (induction os f p r rule: PathToConfigFile_loop.raw_induct [rotated 1, consumes 1, case_names step])
  case (step loop os f p r)
  show ?case
  proof (cases "path_exists os (path_join os p f)")
    case True
    with step(2) have "r = Some (path_join os p f)" by simp
    with True have "walk_result os f p 0 r" by (simp add: walk_result_def)
    then show ?thesis by (intro exI [of _ 0]) simp
  next
    case miss: False
    show ?thesis
    proof (cases "path_dirname os p = p")
      case True
      with miss step(2) have "r = None" by simp
      with miss True have "walk_result os f p 0 r" by (simp add: walk_result_def)
      then show ?thesis by (intro exI [of _ 0]) simp
    next
      case False
      with miss step(2) have "loop os f (path_dirname os p) = Some r" by simp
      from step(1) [OF this] obtain n where
        below: "\<And>m. m < n \<Longrightarrow>
                  \<not> path_exists os (path_join os ((path_dirname os ^^ m) (path_dirname os p)) f)"
        and res: "walk_result os f (path_dirname os p) n r"
        by blast
      have "\<not> path_exists os (path_join os ((path_dirname os ^^ m) p) f)" if "m < Suc n" for m
      proof (cases m)
        case 0
        with miss show ?thesis by simp
      next
        case (Suc j)
        with that have "j < n" by simp
        from below [OF this] show ?thesis
          unfolding Suc funpow_shift .
      qed
      with walk_result_shift [OF res] show ?thesis by blast
    qed
  qed
qed

text \<open>
  C6. \<open>PathToConfigFile\<close> starts at the working directory (\<open>ancestor os 0\<close>) and goes
  from a directory to its parent. If the file exists in the directory \<open>n\<close> levels up and in
  none below it, the result is the joined path of that directory; if a directory that is
  its own parent is reached and the file exists in no directory up to it, the result is
  \<^verbatim>\<open>None\<close>, a value. Conversely a path is returned only for the nearest directory that
  holds the file, and \<^verbatim>\<open>None\<close> only at such a root with no match on the way.
\<close>

theorem PathToConfigFile_nearest:
  "(path_exists os (path_join os (ancestor os n) f)
      \<and> (\<forall>m<n. \<not> path_exists os (path_join os (ancestor os m) f))
      \<longrightarrow> PathToConfigFile os f = Some (Some (path_join os (ancestor os n) f)))
   \<and> (path_dirname os (ancestor os n) = ancestor os n
      \<and> (\<forall>m\<le>n. \<not> path_exists os (path_join os (ancestor os m) f))
      \<longrightarrow> PathToConfigFile os f = Some None)
   \<and> (PathToConfigFile os f = Some (Some c)
      \<longrightarrow> (\<exists>k. c = path_join os (ancestor os k) f \<and> path_exists os c
              \<and> (\<forall>m<k. \<not> path_exists os (path_join os (ancestor os m) f))))
   \<and> (PathToConfigFile os f = Some None
      \<longrightarrow> (\<exists>k. path_dirname os (ancestor os k) = ancestor os k
              \<and> (\<forall>m\<le>k. \<not> path_exists os (path_join os (ancestor os m) f))))"
proof (intro conjI impI)
  assume "path_exists os (path_join os (ancestor os n) f)
      \<and> (\<forall>m<n. \<not> path_exists os (path_join os (ancestor os m) f))"
  then show "PathToConfigFile os f = Some (Some (path_join os (ancestor os n) f))"
    by (intro found_nearest) auto
next
  assume "path_dirname os (ancestor os n) = ancestor os n
      \<and> (\<forall>m\<le>n. \<not> path_exists os (path_join os (ancestor os m) f))"
  then show "PathToConfigFile os f = Some None"
    by (intro not_found_at_root [of os n]) auto
next
  assume "PathToConfigFile os f = Some (Some c)"
  then have "PathToConfigFile_loop os f (getcwd os) = Some (Some c)"
    by (simp add: PathToConfigFile_def)
  from loop_sound [OF this] obtain k where
    "\<forall>m<k. \<not> path_exists os (path_join os ((path_dirname os ^^ m) (getcwd os)) f)"
    "walk_result os f (getcwd os) k (Some c)"
    by blast
  then show "\<exists>k. c = path_join os (ancestor os k) f \<and> path_exists os c
              \<and> (\<forall>m<k. \<not> path_exists os (path_join os (ancestor os m) f))"
    by (auto simp add: walk_result_def ancestor_def)
next
  assume "PathToConfigFile os f = Some None"
  then have "PathToConfigFile_loop os f (getcwd os) = Some None"
    by (simp add: PathToConfigFile_def)
  from loop_sound [OF this] obtain k where
    below: "\<forall>m<k. \<not> path_exists os (path_join os ((path_dirname os ^^ m) (getcwd os)) f)"
    and stop: "walk_result os f (getcwd os) k None"
    by blast
  from stop have "path_dirname os (ancestor os k) = ancestor os k"
    and "\<not> path_exists os (path_join os (ancestor os k) f)"
    by (simp_all add: walk_result_def ancestor_def)
  moreover from this below have "\<forall>m\<le>k. \<not> path_exists os (path_join os (ancestor os m) f)"
    by (auto simp add: ancestor_def le_less)
  ultimately show "\<exists>k. path_dirname os (ancestor os k) = ancestor os k
              \<and> (\<forall>m\<le>k. \<not> path_exists os (path_join os (ancestor os m) f))"
    by blast
qed

theorem PathToConfigFile_nearest_witness:
  "PathToConfigFile (posix ''/a/b/c'' [''/a/.vimspector.json'', ''/.vimspector.json''])
      ''.vimspector.json'' = Some (Some ''/a/.vimspector.json'')
   \<and> PathToConfigFile (posix ''/a/b/c'' [''/a/other.json'']) ''.vimspector.json'' = Some None"
  using PathToConfigFile_nearest [of "posix ''/a/b/c'' [''/a/.vimspector.json'', ''/.vimspector.json'']"
      "Suc (Suc 0)" "''.vimspector.json''"]
    PathToConfigFile_nearest [of "posix ''/a/b/c'' [''/a/other.json'']"
      "Suc (Suc (Suc 0))" "''.vimspector.json''"]
  by (simp add: ancestor_def posix_def posix_dirname_def posix_join_def less_Suc_eq le_Suc_eq)

text \<open>
  C10. If taking the parent directory from the working directory reaches a fixed point
  after some number \<open>n\<close> of steps, the loop of \<open>PathToConfigFile\<close> comes to an end and
  returns a value, a path or \<^verbatim>\<open>None\<close>.
\<close>

theorem PathToConfigFile_terminates:
  "path_dirname os (ancestor os n) = ancestor os n \<Longrightarrow> \<exists>r. PathToConfigFile os f = Some r"
  by (rule returns_at_root)

theorem PathToConfigFile_terminates_witness:
  "path_dirname (posix ''/a/b/c'' [''/a/.vimspector.json''])
       (ancestor (posix ''/a/b/c'' [''/a/.vimspector.json'']) (Suc (Suc (Suc 0))))
     = ancestor (posix ''/a/b/c'' [''/a/.vimspector.json'']) (Suc (Suc (Suc 0)))
   \<and> (\<exists>r. PathToConfigFile (posix ''/a/b/c'' [''/a/.vimspector.json'']) ''.vimspector.json''
            = Some r)"
  using PathToConfigFile_terminates [of "posix ''/a/b/c'' [''/a/.vimspector.json'']"
      "Suc (Suc (Suc 0))" "''.vimspector.json''"]
  by (simp add: ancestor_def posix_def posix_dirname_def)

text \<open>
  On the POSIX platform the precondition always holds: \<^verbatim>\<open>dirname\<close> returns its argument
  or a shorter string, so the search returns from every working directory.
\<close>

lemma dropWhile_same_length: "length (dropWhile P xs) = length xs \<Longrightarrow> dropWhile P xs = xs"
proof -
  assume len: "length (dropWhile P xs) = length xs"
  have "length (takeWhile P xs) + length (dropWhile P xs) = length xs"
    by (simp flip: length_append)
  with len have "takeWhile P xs = []" by simp
  with takeWhile_dropWhile_id [of P xs] show ?thesis by simp
qed

lemma posix_dirname_shorter:
  "posix_dirname p = p \<or> length (posix_dirname p) < length p"
proof -
  define head where "head = rev (dropWhile (\<lambda>c. c \<noteq> CHR ''/'') (rev p))"
  have head_le: "length head \<le> length p"
    unfolding head_def using length_dropWhile_le [of "\<lambda>c. c \<noteq> CHR ''/''" "rev p"] by simp
  have head_eq: "head = p" if "length head = length p"
  proof -
    from that have "dropWhile (\<lambda>c. c \<noteq> CHR ''/'') (rev p) = rev p"
      by (intro dropWhile_same_length) (simp add: head_def)
    then show ?thesis by (simp add: head_def)
  qed
  show ?thesis
  proof (cases "head \<noteq> [] \<and> filter (\<lambda>c. c \<noteq> CHR ''/'') head \<noteq> []")
    case False
    then have "posix_dirname p = head"
      by (auto simp add: posix_dirname_def head_def Let_def)
    with head_le head_eq show ?thesis
      by (cases "length head = length p") auto
  next
    case True
    then have res: "posix_dirname p = rev (dropWhile (\<lambda>c. c = CHR ''/'') (rev head))"
      by (auto simp add: posix_dirname_def head_def Let_def)
    have res_le: "length (posix_dirname p) \<le> length head"
      unfolding res using length_dropWhile_le [of "\<lambda>c. c = CHR ''/''" "rev head"] by simp
    have "length (posix_dirname p) \<noteq> length p"
    proof
      assume same: "length (posix_dirname p) = length p"
      with res_le head_le have "length head = length p" by simp
      then have hp: "head = p" by (rule head_eq)
      with True have "rev p \<noteq> []" by simp
      from hp have "dropWhile (\<lambda>c. c \<noteq> CHR ''/'') (rev p) = rev p"
        by (simp add: head_def rev_swap)
      with \<open>rev p \<noteq> []\<close> have slash: "hd (rev p) = CHR ''/''"
        by (simp add: dropWhile_eq_self_iff)
      from same hp have "dropWhile (\<lambda>c. c = CHR ''/'') (rev p) = rev p"
        by (intro dropWhile_same_length) (simp add: res)
      with \<open>rev p \<noteq> []\<close> have "hd (rev p) \<noteq> CHR ''/''"
        by (simp add: dropWhile_eq_self_iff)
      with slash show False by simp
    qed
    with res_le head_le show ?thesis by simp
  qed
qed

lemma posix_reaches_root:
  "\<exists>n. posix_dirname ((posix_dirname ^^ n) p) = (posix_dirname ^^ n) p"
proof (induction p rule: length_induct)
  case (1 p)
  show ?case
  proof (cases "posix_dirname p = p")
    case True
    then show ?thesis by (intro exI [of _ 0]) simp
  next
    case False
    with posix_dirname_shorter [of p] have "length (posix_dirname p) < length p" by simp
    with 1 obtain n where
      "posix_dirname ((posix_dirname ^^ n) (posix_dirname p)) = (posix_dirname ^^ n) (posix_dirname p)"
      by blast
    then have "posix_dirname ((posix_dirname ^^ Suc n) p) = (posix_dirname ^^ Suc n) p"
      by (simp only: funpow_shift)
    then show ?thesis by blast
  qed
qed

lemma PathToConfigFile_posix_returns:
  "\<exists>r. PathToConfigFile (posix cwd files) f = Some r"
proof -
  obtain n where "posix_dirname ((posix_dirname ^^ n) cwd) = (posix_dirname ^^ n) cwd"
    using posix_reaches_root by blast
  then have "path_dirname (posix cwd files) (ancestor (posix cwd files) n)
               = ancestor (posix cwd files) n"
    by (simp add: ancestor_def posix_def)
  then show ?thesis by (rule returns_at_root)
qed

section \<open>Properties of the logging setup\<close>

lemma SetUpLogging_attached:
  "h \<in> set (handlers l) \<Longrightarrow> handlers (SetUpLogging h l) = handlers l"
  by (simp add: SetUpLogging_def setLevel_def addHandler_def Let_def)

lemma SetUpLogging_attaches: "h \<in> set (handlers (SetUpLogging h l))"
  by (simp add: SetUpLogging_def setLevel_def addHandler_def Let_def)

lemma SetUpLogging_twice: "SetUpLogging h (SetUpLogging h l) = SetUpLogging h l"
  by (simp add: SetUpLogging_def setLevel_def addHandler_def Let_def)

lemma SetUpLogging_again: "(SetUpLogging h ^^ Suc n) l = SetUpLogging h l"
  by (induction n) (simp_all add: SetUpLogging_twice)

lemma SetUpLogging_count:
  "count_list (handlers (SetUpLogging h l)) h = max 1 (count_list (handlers l) h)"
proof (cases "h \<in> set (handlers l)")
  case True
  then have "count_list (handlers l) h \<noteq> 0"
    by (simp add: count_list_0_iff)
  with True show ?thesis
    by (simp add: SetUpLogging_attached max_def)
next
  case False
  then have "count_list (handlers l) h = 0"
    by (simp add: count_list_0_iff)
  with False show ?thesis
    by (simp add: SetUpLogging_def setLevel_def addHandler_def Let_def)
qed

text \<open>
  C8. Any number of calls of \<open>SetUpLogging\<close> after the first leaves the logger as the
  first call left it; a call on a logger that already holds the shared handler leaves
  its handlers as they are; and a logger that held the handler at most once holds it
  exactly once after any number of calls.
\<close>

theorem SetUpLogging_idempotent:
  "(SetUpLogging h ^^ Suc n) l = SetUpLogging h l
   \<and> (h \<in> set (handlers l) \<longrightarrow> handlers (SetUpLogging h l) = handlers l)
   \<and> (count_list (handlers l) h \<le> 1 \<longrightarrow> count_list (handlers ((SetUpLogging h ^^ Suc n) l)) h = 1)"
  by (simp only: SetUpLogging_again SetUpLogging_count) (simp add: SetUpLogging_attached)

theorem SetUpLogging_idempotent_witness:
  "(SetUpLogging 7 ^^ Suc (Suc (Suc 0))) \<lparr>level = 0, handlers = [3]\<rparr>
     = \<lparr>level = 10, handlers = [3, 7]\<rparr>
   \<and> SetUpLogging 7 \<lparr>level = 10, handlers = [3, 7]\<rparr> = \<lparr>level = 10, handlers = [3, 7]\<rparr>"
  using SetUpLogging_idempotent [of 7 "Suc (Suc 0)" "\<lparr>level = 0, handlers = [3]\<rparr>"]
    SetUpLogging_idempotent [of 7 0 "\<lparr>level = 10, handlers = [3, 7]\<rparr>"]
  by (simp add: SetUpLogging_def setLevel_def addHandler_def DEBUG_def Let_def)

end
